theory Spec2Isabelle
  imports Main "HOL-Library.Sublist"
begin

section \<open>Python string operations on ASCII text\<close>

text \<open>
  The resume parser (\<^verbatim>\<open>src/resume_parser.py\<close>) works on Python \<^verbatim>\<open>str\<close> values.
  They are modelled as \<^typ>\<open>string\<close>, one \<^typ>\<open>char\<close> per character, and the character
  classes are the ASCII ones: \<^verbatim>\<open>str.lower\<close>, \<^verbatim>\<open>str.isupper\<close>, \<^verbatim>\<open>str.strip\<close>, \<^verbatim>\<open>\d\<close> and
  \<^verbatim>\<open>\s\<close> are given their meaning on code points below 128, and a character outside
  the ASCII letters has no case. The skills extractor, whose result depends on the case
  mapping outside ASCII, is modelled on lists of Unicode code points instead (see its
  section).
\<close>

definition nl :: char where
  "nl = CHR 0x0A"

definition is_upper_char :: "char \<Rightarrow> bool" where
  "is_upper_char c = (65 \<le> (of_char c :: nat) \<and> (of_char c :: nat) \<le> 90)"

definition is_digit_char :: "char \<Rightarrow> bool" where
  "is_digit_char c = (48 \<le> (of_char c :: nat) \<and> (of_char c :: nat) \<le> 57)"

definition is_space_char :: "char \<Rightarrow> bool" where
  "is_space_char c =
     ((9 \<le> (of_char c :: nat) \<and> (of_char c :: nat) \<le> 13)
      \<or> (28 \<le> (of_char c :: nat) \<and> (of_char c :: nat) \<le> 32))"

definition lower_char :: "char \<Rightarrow> char" where
  "lower_char c = (if is_upper_char c then char_of ((of_char c :: nat) + 32) else c)"

definition str_lower :: "string \<Rightarrow> string" where
  "str_lower s = map lower_char s"

text \<open>\<^verbatim>\<open>s.strip()\<close>: leading and trailing whitespace removed.\<close>

definition str_strip :: "string \<Rightarrow> string" where
  "str_strip s = rev (dropWhile is_space_char (rev (dropWhile is_space_char s)))"

text \<open>\<^verbatim>\<open>sub in s\<close>: \<open>sub\<close> occurs in \<open>s\<close> as a contiguous substring.\<close>

fun str_contains :: "string \<Rightarrow> string \<Rightarrow> bool" where
  "str_contains sub [] = (sub = [])"
| "str_contains sub (c # cs) = (prefix sub (c # cs) \<or> str_contains sub cs)"

text \<open>\<^verbatim>\<open>any(k in s for k in keywords)\<close>.\<close>

definition any_in :: "string list \<Rightarrow> string \<Rightarrow> bool" where
  "any_in keywords s = list_ex (\<lambda>k. str_contains k s) keywords"

text \<open>\<^verbatim>\<open>s.split(sep)\<close> for a one-character separator: never the empty list.\<close>

fun str_split :: "char \<Rightarrow> string \<Rightarrow> string list" where
  "str_split sep [] = [[]]"
| "str_split sep (c # cs) =
     (if c = sep then [] # str_split sep cs
      else (case str_split sep cs of
              [] \<Rightarrow> [[c]]
            | l # ls \<Rightarrow> (c # l) # ls))"

text \<open>\<^verbatim>\<open>" ".join(xs)\<close>.\<close>

fun str_join :: "string \<Rightarrow> string list \<Rightarrow> string" where
  "str_join sep [] = []"
| "str_join sep [x] = x"
| "str_join sep (x # y # ys) = x @ sep @ str_join sep (y # ys)"

section \<open>The annotated document\<close>

text \<open>
  The parts of a spaCy \<^verbatim>\<open>Doc\<close> the extractors read: tokens with their stop-word and
  whitespace flags, sentences with the index of their first token, entities with their
  label and the index after their last token, and the texts of the noun chunks. The
  records are given over the type \<open>'c\<close> of the characters of a text: \<^typ>\<open>char\<close> for the
  extractors modelled on ASCII text (\<open>token\<close>, \<open>sentence\<close>, \<open>entity\<close>, \<open>doc\<close>), and
  \<^typ>\<open>int\<close>, a Unicode code point, for the skills extractor.
\<close>

record 'c token_of =
  tok_text :: "'c list"
  is_stop :: bool
  is_space :: bool

record 'c sentence_of =
  sent_text :: "'c list"
  sent_start :: int

record 'c entity_of =
  ent_text :: "'c list"
  label :: string
  ent_end :: int

record 'c doc_of =
  tokens :: "'c token_of list"
  sents :: "'c sentence_of list"
  ents :: "'c entity_of list"
  noun_chunks :: "'c list list"

type_synonym token = "char token_of"

type_synonym sentence = "char sentence_of"

type_synonym entity = "char entity_of"

type_synonym doc = "char doc_of"

section \<open>extract\_summary\<close>

definition summary_keywords :: "string list" where
  "summary_keywords = [''summary'', ''objective'', ''profile'', ''about me'']"

text \<open>
  The loop over \<^verbatim>\<open>doc.sents\<close>, with \<^verbatim>\<open>in_summary\<close> and the list \<^verbatim>\<open>summary\<close> as
  arguments; \<^verbatim>\<open>break\<close> returns the list as it is.
\<close>

fun summary_loop :: "sentence list \<Rightarrow> bool \<Rightarrow> string list \<Rightarrow> string list" where
  "summary_loop [] in_summary summary = summary"
| "summary_loop (sent # rest) in_summary summary =
     (let clean_sent = str_lower (str_strip (sent_text sent)) in
      if any_in summary_keywords clean_sent
      then summary_loop rest True (summary @ [str_strip (sent_text sent)])
      else if in_summary
      then (if str_contains ''experience'' clean_sent
            then summary
            else summary_loop rest in_summary (summary @ [str_strip (sent_text sent)]))
      else summary_loop rest in_summary summary)"

definition extract_summary :: "doc \<Rightarrow> string" where
  "extract_summary d = str_strip (str_join '' '' (summary_loop (sents d) False []))"

section \<open>extract\_skills\<close>

text \<open>
  A string is a list of Unicode code points here. \<open>cp_lower\<close> and \<open>cp_title\<close> are what
  \<^verbatim>\<open>str.lower\<close> and \<^verbatim>\<open>str.capitalize\<close> (on the first character, which it puts in title
  case) do to one code point. They are written out for the ASCII letters and for seven more
  code points: the Kelvin sign U+212A, the Angstrom sign U+212B, the letters U+00C5 and
  U+00E5, and the three forms U+01C4, U+01C5, U+01C6 of the digraph DZ with caron (upper,
  title and lower case). Every other code point is left as it is. The statements that
  depend on the case mapping are therefore made for ASCII terms, or at these code points.
\<close>

type_synonym ustr = "int list"

definition code_points :: "string \<Rightarrow> ustr" where
  "code_points s = map of_char s"

definition is_ascii :: "ustr \<Rightarrow> bool" where
  "is_ascii s = list_all (\<lambda>c. 0 \<le> c \<and> c < 128) s"

definition cp_lower :: "int \<Rightarrow> int" where
  "cp_lower c =
     (if 65 \<le> c \<and> c \<le> 90 then c + 32
      else if c = 0x212A then 0x6B
      else if c = 0x212B \<or> c = 0xC5 then 0xE5
      else if c = 0x1C4 \<or> c = 0x1C5 then 0x1C6
      else c)"

definition cp_title :: "int \<Rightarrow> int" where
  "cp_title c =
     (if 97 \<le> c \<and> c \<le> 122 then c - 32
      else if c = 0xE5 then 0xC5
      else if c = 0x1C4 \<or> c = 0x1C6 then 0x1C5
      else c)"

definition ustr_lower :: "ustr \<Rightarrow> ustr" where
  "ustr_lower s = map cp_lower s"

text \<open>\<^verbatim>\<open>s.capitalize()\<close>: the first character in title case, the others lowercased.\<close>

definition ustr_capitalize :: "ustr \<Rightarrow> ustr" where
  "ustr_capitalize s = (case s of [] \<Rightarrow> [] | c # cs \<Rightarrow> cp_title c # map cp_lower cs)"

text \<open>
  \<^verbatim>\<open>list(set(skills))\<close> keeps one copy of each element in an order Python does not fix;
  \<^const>\<open>remdups\<close> is one such list, and the statements below read it through \<^const>\<open>set\<close>
  and \<^const>\<open>distinct\<close> only.
\<close>

definition skill_matches :: "int doc_of \<Rightarrow> ustr \<Rightarrow> bool" where
  "skill_matches d skill =
     (ustr_lower skill \<in> set (map (\<lambda>t. ustr_lower (tok_text t)) (filter (\<lambda>t. \<not> is_stop t) (tokens d)))
      \<or> ustr_lower skill \<in> set (map ustr_lower (noun_chunks d)))"

definition extract_skills :: "int doc_of \<Rightarrow> ustr list \<Rightarrow> ustr list" where
  "extract_skills d skill_list =
     remdups (map ustr_capitalize (filter (skill_matches d) skill_list))"



section \<open>extract\_work\_experience\<close>

text \<open>
  \<^verbatim>\<open>current_job\<close> is a dict with the keys \<^verbatim>\<open>company\<close>, \<^verbatim>\<open>dates\<close> and \<^verbatim>\<open>job_title\<close>;
  an absent key is \<^const>\<open>None\<close>.
\<close>

record job =
  company :: "string option"
  dates :: "string option"
  job_title :: "string option"

definition empty_job :: job where
  "empty_job = \<lparr>company = None, dates = None, job_title = None\<rparr>"

text \<open>\<^verbatim>\<open>not current_job.get(key)\<close>: the key is absent or its value is the empty string.\<close>

definition falsy :: "string option \<Rightarrow> bool" where
  "falsy v = (case v of None \<Rightarrow> True | Some s \<Rightarrow> s = [])"

definition job_len :: "job \<Rightarrow> nat" where
  "job_len j =
     (if company j = None then 0 else 1) + (if dates j = None then 0 else 1)
     + (if job_title j = None then 0 else 1)"

text \<open>
  The inner loop: the first sentence with \<^verbatim>\<open>sent.start > ent.end\<close> gives the job title;
  without one the key stays absent.
\<close>

fun job_title_after :: "sentence list \<Rightarrow> entity \<Rightarrow> string option" where
  "job_title_after [] ent = None"
| "job_title_after (sent # rest) ent =
     (if sent_start sent > ent_end ent then Some (str_strip (sent_text sent))
      else job_title_after rest ent)"

definition fill_job :: "entity \<Rightarrow> job \<Rightarrow> job" where
  "fill_job ent current_job =
     (if label ent = ''ORG'' \<and> falsy (company current_job)
      then current_job\<lparr>company := Some (ent_text ent)\<rparr>
      else if label ent = ''DATE'' \<and> falsy (dates current_job)
      then current_job\<lparr>dates := Some (ent_text ent)\<rparr>
      else current_job)"

fun work_loop :: "sentence list \<Rightarrow> entity list \<Rightarrow> job \<Rightarrow> job list \<Rightarrow> job list" where
  "work_loop ss [] current_job experience = experience"
| "work_loop ss (ent # rest) current_job experience =
     (let filled = fill_job ent current_job in
      if job_len filled = 2
      then work_loop ss rest empty_job
             (experience @ [(case job_title_after ss ent of
                               None \<Rightarrow> filled
                             | Some t \<Rightarrow> filled\<lparr>job_title := Some t\<rparr>)])
      else work_loop ss rest filled experience)"

definition extract_work_experience :: "doc \<Rightarrow> job list" where
  "extract_work_experience d = work_loop (sents d) (ents d) empty_job []"

text \<open>The value of \<^verbatim>\<open>current_job\<close> when the loop has run over the entities.\<close>

fun job_after :: "entity list \<Rightarrow> job \<Rightarrow> job" where
  "job_after [] current_job = current_job"
| "job_after (ent # rest) current_job =
     (let filled = fill_job ent current_job in
      if job_len filled = 2 then job_after rest empty_job else job_after rest filled)"

section \<open>extract\_education\<close>

text \<open>
  The argument is any Python value: a \<^verbatim>\<open>Doc\<close>, a \<^verbatim>\<open>str\<close>, or something else, for which
  the function raises \<^verbatim>\<open>ValueError\<close>.
\<close>

datatype input_data =
  DocInput doc
| StrInput string
| NoneInput
| IntInput int
| ListInput "string list"

datatype error = ValueError

text \<open>\<^verbatim>\<open>isinstance(input_data, spacy.tokens.Doc)\<close> and \<^verbatim>\<open>isinstance(input_data, str)\<close>.\<close>

definition is_doc :: "input_data \<Rightarrow> bool" where
  "is_doc input = (case input of DocInput d \<Rightarrow> True | _ \<Rightarrow> False)"

definition is_str :: "input_data \<Rightarrow> bool" where
  "is_str input = (case input of StrInput s \<Rightarrow> True | _ \<Rightarrow> False)"

text \<open>\<^verbatim>\<open>current_edu\<close> is a dict with five possible keys; an absent key is \<^const>\<open>None\<close>.\<close>

record edu =
  degree :: "string option"
  institution :: "string option"
  location :: "string option"
  edu_dates :: "string option"
  additional_info :: "string list option"

definition empty_edu :: edu where
  "empty_edu = \<lparr>degree = None, institution = None, location = None, edu_dates = None,
                 additional_info = None\<rparr>"

text \<open>The truth value of the dict: it has a key.\<close>

definition edu_nonempty :: "edu \<Rightarrow> bool" where
  "edu_nonempty e =
     (degree e \<noteq> None \<or> institution e \<noteq> None \<or> location e \<noteq> None \<or> edu_dates e \<noteq> None
      \<or> additional_info e \<noteq> None)"

definition input_lines :: "input_data \<Rightarrow> error + string list" where
  "input_lines input =
     (case input of
        DocInput d \<Rightarrow> Inr (map tok_text (filter (\<lambda>t. \<not> is_space t) (tokens d)))
      | StrInput s \<Rightarrow> Inr (map str_strip (filter (\<lambda>line. str_strip line \<noteq> []) (str_split nl s)))
      | _ \<Rightarrow> Inl ValueError)"

definition section_keywords :: "string list" where
  "section_keywords = [''education'', ''academic background'', ''academic history'']"

definition end_keywords :: "string list" where
  "end_keywords = [''experience'', ''skills'', ''projects'']"

definition degree_names :: "string list" where
  "degree_names = [''bachelor'', ''master'', ''phd'', ''doctorate'', ''bs'', ''ba'', ''ms'',
                   ''ma'', ''mba'', ''md'', ''jd'', ''b.s.'', ''m.s.'']"

text \<open>
  \<^verbatim>\<open>re.match\<close> of the alternation of the degree names, ignoring case: the string starts
  with one of them.
\<close>

definition degree_match :: "string \<Rightarrow> bool" where
  "degree_match s = list_ex (\<lambda>p. prefix p (str_lower s)) degree_names"

text \<open>
  The date pattern \<^verbatim>\<open>\d{4}\s*-\s*\d{4}|\d{4}\s*-\s*(present|current)\<close>, ignoring case.
  \<open>digits4\<close> reads four digits and returns what follows them;
  \<open>match_year_range\<close> is the length of the match at the start of the string (the
  whitespace runs are followed by a character that is not whitespace, so the greedy run is
  the only one that can match); \<open>search_date\<close> is \<^verbatim>\<open>re.search(...).group()\<close>, the
  leftmost match.
\<close>

definition digits4 :: "string \<Rightarrow> string option" where
  "digits4 s =
     (if 4 \<le> length s \<and> list_all is_digit_char (take 4 s) then Some (drop 4 s) else None)"

definition match_year_range :: "string \<Rightarrow> nat option" where
  "match_year_range s =
     (case digits4 s of
        None \<Rightarrow> None
      | Some r1 \<Rightarrow>
          (case dropWhile is_space_char r1 of
             [] \<Rightarrow> None
           | c # r2 \<Rightarrow>
               if c = CHR ''-''
               then (let r3 = dropWhile is_space_char r2 in
                     case digits4 r3 of
                       Some r4 \<Rightarrow> Some (length s - length r4)
                     | None \<Rightarrow>
                         if prefix ''present'' (str_lower r3) \<or> prefix ''current'' (str_lower r3)
                         then Some (length s - (length r3 - 7))
                         else None)
               else None))"

fun search_date :: "string \<Rightarrow> string option" where
  "search_date [] = None"
| "search_date (c # cs) =
     (case match_year_range (c # cs) of
        Some n \<Rightarrow> Some (take n (c # cs))
      | None \<Rightarrow> search_date cs)"

text \<open>
  One iteration of the loop over \<^verbatim>\<open>enumerate(lines)\<close>. The state is
  \<^verbatim>\<open>(in_section, current_edu, education)\<close>; \<open>nxt\<close> is \<^verbatim>\<open>lines[i+1]\<close> when
  \<^verbatim>\<open>i+1 < len(lines)\<close>.
\<close>

definition flush_edu :: "edu \<Rightarrow> edu list \<Rightarrow> edu \<times> edu list" where
  "flush_edu current_edu education =
     (if edu_nonempty current_edu then (empty_edu, education @ [current_edu])
      else (current_edu, education))"

definition classify_line :: "string \<Rightarrow> edu \<Rightarrow> edu" where
  "classify_line line current_edu =
     (if institution current_edu = None \<and> degree current_edu \<noteq> None
      then current_edu\<lparr>institution := Some line\<rparr>
      else if location current_edu = None \<and> institution current_edu \<noteq> None
      then current_edu\<lparr>location := Some line\<rparr>
      else (case search_date line of
              Some m \<Rightarrow>
                if edu_dates current_edu = None
                then current_edu\<lparr>edu_dates := Some m\<rparr>
                else current_edu\<lparr>additional_info :=
                       Some (case additional_info current_edu of
                               None \<Rightarrow> [line]
                             | Some info \<Rightarrow> info @ [line])\<rparr>
            | None \<Rightarrow>
                current_edu\<lparr>additional_info :=
                  Some (case additional_info current_edu of
                          None \<Rightarrow> [line]
                        | Some info \<Rightarrow> info @ [line])\<rparr>))"

definition edu_step ::
  "string \<Rightarrow> string option \<Rightarrow> bool \<times> edu \<times> edu list \<Rightarrow> bool \<times> edu \<times> edu list" where
  "edu_step line nxt st =
     (case st of (in_section, current_edu, education) \<Rightarrow>
        (let clean_line = str_lower line in
         if any_in section_keywords clean_line
         then (True, current_edu, education)
         else if in_section \<and> any_in end_keywords clean_line
         then (case flush_edu current_edu education of
                 (cur, edus) \<Rightarrow> (False, cur, edus))
         else if in_section
         then (if degree_match clean_line
               then (case flush_edu current_edu education of
                       (cur, edus) \<Rightarrow>
                         (True,
                          cur\<lparr>degree := Some (case nxt of
                                                 Some following \<Rightarrow> line @ '' '' @ following
                                               | None \<Rightarrow> line)\<rparr>,
                          edus))
               else (True, classify_line line current_edu, education))
         else (in_section, current_edu, education)))"

fun edu_loop :: "string list \<Rightarrow> bool \<times> edu \<times> edu list \<Rightarrow> bool \<times> edu \<times> edu list" where
  "edu_loop [] st = st"
| "edu_loop (line # rest) st =
     edu_loop rest (edu_step line (case rest of [] \<Rightarrow> None | following # _ \<Rightarrow> Some following) st)"

definition extract_education :: "input_data \<Rightarrow> error + edu list" where
  "extract_education input =
     (case input_lines input of
        Inl e \<Rightarrow> Inl e
      | Inr lines \<Rightarrow>
          (case edu_loop lines (False, empty_edu, []) of
             (in_section, current_edu, education) \<Rightarrow>
               Inr (snd (flush_edu current_edu education))))"

section \<open>extract\_awards\_and\_certifications\<close>

definition award_keywords :: "string list" where
  "award_keywords = [''award'', ''certification'', ''certificate'', ''achievement'']"

text \<open>
  \<^verbatim>\<open>re.sub(r'\([^)]*\)', '', line)\<close>: every opening parenthesis that has a closing one
  after it is removed together with the text up to the first closing one.
\<close>

function strip_parens :: "string \<Rightarrow> string" where
  "strip_parens [] = []"
| "strip_parens (c # cs) =
     (if c = CHR ''('' \<and> CHR '')'' \<in> set cs
      then strip_parens (tl (dropWhile (\<lambda>x. x \<noteq> CHR '')'') cs))
      else c # strip_parens cs)"
  by pat_completeness auto
termination
proof (relation "measure length")
  show "wf (measure length)"
    by simp
next
  fix c :: char and cs :: string
  have "length (tl (dropWhile (\<lambda>x. x \<noteq> CHR '')'') cs)) \<le> length cs"
    using length_dropWhile_le [of "\<lambda>x. x \<noteq> CHR '')''" cs] by simp
  then show "(tl (dropWhile (\<lambda>x. x \<noteq> CHR '')'') cs), c # cs) \<in> measure length"
    by simp
next
  fix c :: char and cs :: string
  show "(cs, c # cs) \<in> measure length"
    by simp
qed

text \<open>
  The section-exit test of the source, on \<^verbatim>\<open>clean_line = line.strip().lower()\<close>:
  \<^verbatim>\<open>clean_line and clean_line[0].isupper() and clean_line.endswith(':')\<close>.
\<close>

definition exits_section :: "string \<Rightarrow> bool" where
  "exits_section clean_line =
     (case clean_line of
        [] \<Rightarrow> False
      | c # cs \<Rightarrow> is_upper_char c \<and> last (c # cs) = CHR '':'')"

fun awards_loop :: "string list \<Rightarrow> bool \<Rightarrow> string list \<Rightarrow> string list" where
  "awards_loop [] in_section awards_and_certs = awards_and_certs"
| "awards_loop (line # rest) in_section awards_and_certs =
     (let clean_line = str_lower (str_strip line) in
      if any_in award_keywords clean_line
      then awards_loop rest True awards_and_certs
      else (let in_section' = (if in_section \<and> exits_section clean_line then False else in_section) in
            if in_section' \<and> clean_line \<noteq> []
            then (let line_without_date = str_strip (strip_parens line) in
                  if line_without_date \<noteq> []
                  then awards_loop rest in_section' (awards_and_certs @ [line_without_date])
                  else awards_loop rest in_section' awards_and_certs)
            else awards_loop rest in_section' awards_and_certs))"

definition extract_awards_and_certifications :: "string \<Rightarrow> string list" where
  "extract_awards_and_certifications text = awards_loop (str_split nl text) False []"

section \<open>extract\_section\<close>

text \<open>
  The loop over the lines, with \<^verbatim>\<open>in_section\<close> and \<^verbatim>\<open>section_content\<close> as arguments;
  \<^verbatim>\<open>break\<close> returns the content as it is. The header test comes first and ends the
  iteration (\<^verbatim>\<open>continue\<close>).
\<close>

definition is_header :: "string \<Rightarrow> string \<Rightarrow> bool" where
  "is_header section_header clean_line =
     str_contains (str_lower section_header) (str_lower clean_line)"

definition is_stop_line :: "string list \<Rightarrow> string \<Rightarrow> bool" where
  "is_stop_line stop_headers clean_line =
     list_ex (\<lambda>stop_header. str_contains (str_lower stop_header) (str_lower clean_line)) stop_headers"

fun section_loop ::
  "string \<Rightarrow> string list \<Rightarrow> string list \<Rightarrow> bool \<Rightarrow> string list \<Rightarrow> string list" where
  "section_loop section_header stop_headers [] in_section section_content = section_content"
| "section_loop section_header stop_headers (line # rest) in_section section_content =
     (let clean_line = str_strip line in
      if is_header section_header clean_line
      then section_loop section_header stop_headers rest True section_content
      else if in_section \<and> is_stop_line stop_headers clean_line
      then section_content
      else if in_section
      then section_loop section_header stop_headers rest in_section (section_content @ [clean_line])
      else section_loop section_header stop_headers rest in_section section_content)"

definition extract_section :: "string \<Rightarrow> string \<Rightarrow> string list \<Rightarrow> string list" where
  "extract_section text section_header stop_headers =
     filter (\<lambda>line. line \<noteq> [])
       (section_loop section_header stop_headers (str_split nl text) False [])"

definition extract_projects :: "string \<Rightarrow> string list" where
  "extract_projects text =
     extract_section text ''projects''
       [''publications'', ''education'', ''work experience'', ''skills'', ''certifications'',
        ''awards'', ''interests'']"

section \<open>Example inputs\<close>

text \<open>\<^verbatim>\<open>"\n".join(lines)\<close>: a text given by its lines.\<close>

definition text_of_lines :: "string list \<Rightarrow> string" where
  "text_of_lines ls = str_join [nl] ls"

definition doc_of_sents :: "sentence list \<Rightarrow> doc" where
  "doc_of_sents ss = \<lparr>tokens = [], sents = ss, ents = [], noun_chunks = []\<rparr>"

definition profile_doc :: doc where
  "profile_doc = doc_of_sents
     [\<lparr>sent_text = ''Profile: driven engineer.'', sent_start = 0\<rparr>,
      \<lparr>sent_text = ''Loves Python.'', sent_start = 5\<rparr>,
      \<lparr>sent_text = ''Experience: five years in industry.'', sent_start = 8\<rparr>]"

definition plain_doc :: doc where
  "plain_doc = doc_of_sents [\<lparr>sent_text = ''Worked at Acme.'', sent_start = 0\<rparr>]"

definition projects_text :: string where
  "projects_text = text_of_lines
     [''Intro'', ''Projects'', '' Parser '', ''projects and skills'', ''Compiler'', ''Skills'', ''Python'']"

definition plain_text :: string where
  "plain_text = text_of_lines [''Jane Doe'', ''Engineer at Acme'', '''', ''Skills: Python'']"

definition education_text :: string where
  "education_text = text_of_lines
     [''Education'', ''Bachelor of Science'', ''in Computer Science'', ''MIT'', ''Cambridge, MA'',
      ''2015-2019'']"

definition awards_text :: string where
  "awards_text = text_of_lines [''Awards'', ''Best Paper (2019)'', ''Skills:'', ''Python'']"

definition dates_only_edu :: edu where
  "dates_only_edu = empty_edu\<lparr>edu_dates := Some ''2015-2019''\<rparr>"

definition dates_first_text :: string where
  "dates_first_text = text_of_lines [''Education'', ''2015-2019'', ''Bachelor of Arts'']"

definition acme_ent :: entity where
  "acme_ent = \<lparr>ent_text = ''Acme Corp'', label = ''ORG'', ent_end = 2\<rparr>"

definition y2019_ent :: entity where
  "y2019_ent = \<lparr>ent_text = ''2019'', label = ''DATE'', ent_end = 5\<rparr>"

definition initech_ent :: entity where
  "initech_ent = \<lparr>ent_text = ''Initech'', label = ''ORG'', ent_end = 9\<rparr>"

definition y2021_ent :: entity where
  "y2021_ent = \<lparr>ent_text = ''2021'', label = ''DATE'', ent_end = 10\<rparr>"

definition work_doc :: doc where
  "work_doc =
     \<lparr>tokens = [],
      sents = [\<lparr>sent_text = ''Acme Corp , since'', sent_start = 0\<rparr>,
               \<lparr>sent_text = ''builds parsers'', sent_start = 3\<rparr>,
               \<lparr>sent_text = '' Senior Engineer '', sent_start = 7\<rparr>],
      ents = [acme_ent, y2019_ent, initech_ent, y2021_ent],
      noun_chunks = []\<rparr>"

definition blank_sentence_doc :: doc where
  "blank_sentence_doc =
     \<lparr>tokens = [],
      sents = [\<lparr>sent_text = ''Acme Corp 2019'', sent_start = 0\<rparr>,
               \<lparr>sent_text = [nl, nl], sent_start = 4\<rparr>,
               \<lparr>sent_text = ''Senior Engineer'', sent_start = 5\<rparr>],
      ents = [\<lparr>ent_text = ''Acme Corp'', label = ''ORG'', ent_end = 2\<rparr>,
              \<lparr>ent_text = ''2019'', label = ''DATE'', ent_end = 3\<rparr>],
      noun_chunks = []\<rparr>"

definition angstrom_doc :: "int doc_of" where
  "angstrom_doc =
     \<lparr>tokens = [\<lparr>tok_text = 0xE5 # code_points ''ngstrom'', is_stop = False, is_space = False\<rparr>],
      sents = [], ents = [], noun_chunks = []\<rparr>"

definition angstrom_vocab :: "ustr list" where
  "angstrom_vocab = [0x212B # code_points ''ngstrom'', 0xC5 # code_points ''ngstrom'']"

definition skills_doc :: "int doc_of" where
  "skills_doc =
     \<lparr>tokens = [\<lparr>tok_text = code_points ''Python'', is_stop = False, is_space = False\<rparr>,
                \<lparr>tok_text = code_points ''and'', is_stop = True, is_space = False\<rparr>,
                \<lparr>tok_text = code_points ''JavaScript'', is_stop = False, is_space = False\<rparr>,
                \<lparr>tok_text = code_points ''matlab'', is_stop = False, is_space = False\<rparr>],
      sents = [], ents = [], noun_chunks = [code_points ''Machine Learning'']\<rparr>"

definition skills_vocab :: "ustr list" where
  "skills_vocab = map code_points
     [''python'', ''PYTHON'', ''JavaScript'', ''mATLAB'', ''and'', ''machine learning'', ''rust'']"


section \<open>Properties of extract\_section\<close>

text \<open>
  What the scan returns was already in the content, or is the trimmed form of a line that
  is neither a header line nor a stop line.
\<close>

lemma section_loop_elems:
  "x \<in> set (section_loop h stops ls b acc) \<Longrightarrow>
     x \<in> set acc \<or> (\<exists>l\<in>set ls. x = str_strip l \<and> \<not> is_header h x \<and> \<not> is_stop_line stops x)"
proof (induction ls arbitrary: b acc)
  case Nil
  then show ?case by simp
next
  case (Cons l ls)
  show ?case
  proof (cases "is_header h (str_strip l)")
    case True
    with Cons.prems have "x \<in> set (section_loop h stops ls True acc)" by simp
    from Cons.IH [OF this] show ?thesis by auto
  next
    case nh: False
    show ?thesis
    proof (cases b)
      case False
      with nh Cons.prems have "x \<in> set (section_loop h stops ls False acc)" by simp
      from Cons.IH [OF this] show ?thesis by auto
    next
      case True
      show ?thesis
      proof (cases "is_stop_line stops (str_strip l)")
        case True
        with nh \<open>b\<close> Cons.prems show ?thesis by simp
      next
        case False
        with nh \<open>b\<close> Cons.prems
        have "x \<in> set (section_loop h stops ls True (acc @ [str_strip l]))" by simp
        from Cons.IH [OF this] nh False show ?thesis by auto
      qed
    qed
  qed
qed

lemma section_loop_outside:
  "list_all (\<lambda>l. \<not> is_header h (str_strip l)) ls \<Longrightarrow> section_loop h stops ls False acc = acc"
  by (induction ls) simp_all

text \<open>Trimming a trimmed line changes nothing.\<close>

lemma last_dropWhile_nonempty:
  "dropWhile P xs \<noteq> [] \<Longrightarrow> last (dropWhile P xs) = last xs"
  by (induction xs) (auto split: if_splits)

lemma str_strip_idem: "str_strip (str_strip s) = str_strip s"
proof -
  define ys where "ys = dropWhile is_space_char s"
  define zs where "zs = dropWhile is_space_char (rev ys)"
  have s: "str_strip s = rev zs"
    by (simp add: str_strip_def ys_def zs_def)
  have "dropWhile is_space_char (rev zs) = rev zs"
  proof (cases "zs = []")
    case True
    then show ?thesis by simp
  next
    case False
    then have "last zs = last (rev ys)"
      unfolding zs_def by (rule last_dropWhile_nonempty)
    moreover from False have "ys \<noteq> []"
      by (auto simp: zs_def)
    ultimately have "last zs = hd ys"
      by (simp add: last_rev)
    moreover have "\<not> is_space_char (hd ys)"
      using \<open>ys \<noteq> []\<close> unfolding ys_def by (rule hd_dropWhile)
    ultimately have "\<not> is_space_char (hd (rev zs))"
      using False by (simp add: hd_rev)
    then show ?thesis
      by (simp add: dropWhile_eq_self_iff)
  qed
  moreover have "dropWhile is_space_char zs = zs"
    by (simp add: zs_def)
  ultimately have "str_strip (rev zs) = rev zs"
    by (simp add: str_strip_def)
  then show ?thesis
    by (simp only: s)
qed

text \<open>
  C5. For every text, header keyword and list of stop keywords, every element of the result
  of \<^const>\<open>extract_section\<close> is a trimmed line that is neither a header line (one that
  contains the header keyword) nor a stop line (one that contains a stop keyword): the line
  that opened the section and the line that ended the scan are left out. When no line of
  the text contains the header keyword, the result is empty.
\<close>

theorem extract_section_boundary:
  "(\<forall>x\<in>set (extract_section text section_header stop_headers).
      str_strip x = x \<and> \<not> is_header section_header x \<and> \<not> is_stop_line stop_headers x)
   \<and> ((\<forall>l\<in>set (str_split nl text). \<not> is_header section_header (str_strip l))
        \<longrightarrow> extract_section text section_header stop_headers = [])"
proof (intro conjI ballI impI)
  fix x assume "x \<in> set (extract_section text section_header stop_headers)"
  then have "x \<in> set (section_loop section_header stop_headers (str_split nl text) False [])"
    by (simp add: extract_section_def)
  from section_loop_elems [OF this]
  obtain l where l: "x = str_strip l" "\<not> is_header section_header x"
    "\<not> is_stop_line stop_headers x"
    by auto
  show "str_strip x = x"
    unfolding l(1) by (rule str_strip_idem)
  show "\<not> is_header section_header x" and "\<not> is_stop_line stop_headers x"
    by (rule l(2), rule l(3))
next
  assume "\<forall>l\<in>set (str_split nl text). \<not> is_header section_header (str_strip l)"
  then have "list_all (\<lambda>l. \<not> is_header section_header (str_strip l)) (str_split nl text)"
    by (simp add: list_all_iff)
  then show "extract_section text section_header stop_headers = []"
    by (simp add: extract_section_def section_loop_outside)
qed

theorem extract_section_boundary_witness:
  "extract_section projects_text ''projects'' [''skills''] = [''Parser'', ''Compiler'']
   \<and> str_strip ''Parser'' = ''Parser''
   \<and> \<not> is_header ''projects'' ''Parser'' \<and> \<not> is_stop_line [''skills''] ''Parser''
   \<and> extract_section projects_text ''publications'' [''skills''] = []"
proof -
  have r: "extract_section projects_text ''projects'' [''skills''] = [''Parser'', ''Compiler'']"
    by code_simp
  have m: "''Parser'' \<in> set (extract_section projects_text ''projects'' [''skills''])"
    unfolding r by (rule list.set_intros)
  have n: "\<forall>l\<in>set (str_split nl projects_text). \<not> is_header ''publications'' (str_strip l)"
    by code_simp
  from extract_section_boundary [of projects_text "''projects''" "[''skills'']",
      THEN conjunct1, THEN bspec, OF m]
  have a: "str_strip ''Parser'' = ''Parser'' \<and> \<not> is_header ''projects'' ''Parser''
      \<and> \<not> is_stop_line [''skills''] ''Parser''" .
  from extract_section_boundary [of projects_text "''publications''" "[''skills'']",
      THEN conjunct2, THEN mp, OF n]
  have b: "extract_section projects_text ''publications'' [''skills''] = []" .
  from r a b show ?thesis
    by blast
qed

text \<open>
  C9. A line whose trimmed, lowercased form contains the header keyword is skipped
  whatever the state of the scan: the content is unchanged and the scan goes on inside the
  section with the lines that follow, also when the line contains a stop keyword. No
  element of the scan's result contains the header keyword.
\<close>

theorem header_takes_precedence:
  "(is_header section_header (str_strip line) \<longrightarrow>
      section_loop section_header stop_headers (line # rest) in_section section_content
        = section_loop section_header stop_headers rest True section_content)
   \<and> (\<forall>x\<in>set (section_loop section_header stop_headers ls in_section []).
         \<not> is_header section_header x)"
proof (intro conjI impI ballI)
  assume "is_header section_header (str_strip line)"
  then show "section_loop section_header stop_headers (line # rest) in_section section_content
      = section_loop section_header stop_headers rest True section_content"
    by simp
next
  fix x assume "x \<in> set (section_loop section_header stop_headers ls in_section [])"
  from section_loop_elems [OF this] show "\<not> is_header section_header x" by auto
qed

theorem header_takes_precedence_witness:
  "is_header ''projects'' (str_strip ''projects and skills'')
   \<and> is_stop_line [''skills''] (str_strip ''projects and skills'')
   \<and> section_loop ''projects'' [''skills''] [''projects and skills'', ''Compiler''] True [''Parser'']
       = section_loop ''projects'' [''skills''] [''Compiler''] True [''Parser'']
   \<and> section_loop ''projects'' [''skills''] [''projects and skills'', ''Compiler''] True []
       = [''Compiler'']
   \<and> \<not> is_header ''projects'' ''Compiler''"
proof -
  have h: "is_header ''projects'' (str_strip ''projects and skills'')"
    by code_simp
  have s: "is_stop_line [''skills''] (str_strip ''projects and skills'')"
    by code_simp
  have r: "section_loop ''projects'' [''skills''] [''projects and skills'', ''Compiler''] True []
      = [''Compiler'']"
    by code_simp
  note t = header_takes_precedence [of "''projects''" "''projects and skills''" "[''skills'']"
        "[''Compiler'']" True "[''Parser'']" "[''projects and skills'', ''Compiler'']"]
  from t h have e: "section_loop ''projects'' [''skills''] [''projects and skills'', ''Compiler''] True [''Parser'']
       = section_loop ''projects'' [''skills''] [''Compiler''] True [''Parser'']"
    by blast
  from t have "\<forall>x\<in>set (section_loop ''projects'' [''skills'']
      [''projects and skills'', ''Compiler''] True []). \<not> is_header ''projects'' x"
    by (rule conjunct2)
  then have n: "\<not> is_header ''projects'' ''Compiler''"
    unfolding r by (rule bspec) (rule list.set_intros)
  from h s e r n show ?thesis
    by blast
qed

section \<open>Properties of extract\_summary\<close>

lemma summary_loop_outside:
  "list_all (\<lambda>s. \<not> any_in summary_keywords (str_lower (str_strip (sent_text s)))) ss \<Longrightarrow>
     summary_loop ss False acc = acc"
  by (induction ss) simp_all

lemma str_strip_Nil: "str_strip [] = []"
  by (simp add: str_strip_def)

lemma summary_scenario_tests:
  "any_in summary_keywords (str_lower (str_strip ''Profile: driven engineer.''))"
  "\<not> any_in summary_keywords (str_lower (str_strip ''Loves Python.''))"
  "\<not> str_contains ''experience'' (str_lower (str_strip ''Loves Python.''))"
  "\<not> any_in summary_keywords (str_lower (str_strip ''Experience: five years in industry.''))"
  "str_contains ''experience'' (str_lower (str_strip ''Experience: five years in industry.''))"
  by code_simp+

lemma summary_scenario_join:
  "str_strip (str_join '' '' [str_strip ''Profile: driven engineer.'', str_strip ''Loves Python.''])
     = ''Profile: driven engineer. Loves Python.''"
  by code_simp

text \<open>
  C6. For a document whose sentences are "Profile: driven engineer.", "Loves Python." and
  "Experience: five years in industry.", in this order, \<^const>\<open>extract_summary\<close> returns
  "Profile: driven engineer. Loves Python.": the sentence with "experience" ends the
  summary and is left out. For a document none of whose sentences contains a trigger
  keyword, it returns the empty string.
\<close>

theorem extract_summary_scenario:
  "(map sent_text (sents d) =
      [''Profile: driven engineer.'', ''Loves Python.'', ''Experience: five years in industry.'']
     \<longrightarrow> extract_summary d = ''Profile: driven engineer. Loves Python.'')
   \<and> ((\<forall>s\<in>set (sents d). \<not> any_in summary_keywords (str_lower (str_strip (sent_text s))))
        \<longrightarrow> extract_summary d = [])"
proof (intro conjI impI)
  assume "map sent_text (sents d) =
      [''Profile: driven engineer.'', ''Loves Python.'', ''Experience: five years in industry.'']"
  then obtain s1 s2 s3 where ss: "sents d = [s1, s2, s3]"
    and t: "sent_text s1 = ''Profile: driven engineer.''" "sent_text s2 = ''Loves Python.''"
      "sent_text s3 = ''Experience: five years in industry.''"
    by (auto simp: map_eq_Cons_conv)
  have "summary_loop [s1, s2, s3] False [] =
      [str_strip ''Profile: driven engineer.'', str_strip ''Loves Python.'']"
    by (simp only: summary_loop.simps Let_def t summary_scenario_tests if_True if_False append.simps)
  then show "extract_summary d = ''Profile: driven engineer. Loves Python.''"
    by (simp only: extract_summary_def ss summary_scenario_join)
next
  assume "\<forall>s\<in>set (sents d). \<not> any_in summary_keywords (str_lower (str_strip (sent_text s)))"
  then have "summary_loop (sents d) False [] = []"
    by (simp add: summary_loop_outside list_all_iff)
  then show "extract_summary d = []"
    by (simp add: extract_summary_def str_strip_Nil)
qed

theorem extract_summary_scenario_witness:
  "map sent_text (sents profile_doc) =
      [''Profile: driven engineer.'', ''Loves Python.'', ''Experience: five years in industry.'']
   \<and> extract_summary profile_doc = ''Profile: driven engineer. Loves Python.''
   \<and> extract_summary plain_doc = []"
proof -
  have p: "map sent_text (sents profile_doc) =
      [''Profile: driven engineer.'', ''Loves Python.'', ''Experience: five years in industry.'']"
    by (simp add: profile_doc_def doc_of_sents_def)
  have n: "\<forall>s\<in>set (sents plain_doc).
      \<not> any_in summary_keywords (str_lower (str_strip (sent_text s)))"
    by code_simp
  show ?thesis
    using extract_summary_scenario [of profile_doc] extract_summary_scenario [of plain_doc] p n
    by simp
qed

section \<open>Properties of extract\_education\<close>

lemma edu_step_outside:
  "\<not> any_in section_keywords (str_lower line) \<Longrightarrow>
     edu_step line nxt (False, cur, edus) = (False, cur, edus)"
  by (simp add: edu_step_def)

lemma edu_loop_outside:
  "list_all (\<lambda>line. \<not> any_in section_keywords (str_lower line)) ls \<Longrightarrow>
     edu_loop ls (False, cur, edus) = (False, cur, edus)"
  by (induction ls) (simp_all add: edu_step_outside)

lemma flush_empty_edu: "flush_edu empty_edu [] = (empty_edu, [])"
  by (simp add: flush_edu_def edu_nonempty_def empty_edu_def)

lemma input_lines_cases:
  "input_lines input = Inl ValueError \<longleftrightarrow> \<not> is_doc input \<and> \<not> is_str input"
  "is_doc input \<or> is_str input \<Longrightarrow> \<exists>lines. input_lines input = Inr lines"
  by (cases input; simp add: input_lines_def is_doc_def is_str_def)+

text \<open>
  C8. \<^const>\<open>extract_education\<close> raises \<^verbatim>\<open>ValueError\<close> exactly when its argument is neither
  a \<^verbatim>\<open>Doc\<close> nor a string. For a \<^verbatim>\<open>Doc\<close> or a string it returns a list, and the list is
  empty when no line contains a keyword of the education section.
\<close>

theorem extract_education_raises:
  "(extract_education input = Inl ValueError \<longleftrightarrow> \<not> is_doc input \<and> \<not> is_str input)
   \<and> (is_doc input \<or> is_str input \<longrightarrow> (\<exists>education. extract_education input = Inr education))
   \<and> (\<forall>lines. input_lines input = Inr lines
          \<and> list_all (\<lambda>line. \<not> any_in section_keywords (str_lower line)) lines
        \<longrightarrow> extract_education input = Inr [])"
proof (intro conjI allI impI)
  show "extract_education input = Inl ValueError \<longleftrightarrow> \<not> is_doc input \<and> \<not> is_str input"
    by (cases input)
       (simp_all add: extract_education_def input_lines_def is_doc_def is_str_def split: prod.split)
next
  assume "is_doc input \<or> is_str input"
  then obtain lines where "input_lines input = Inr lines"
    using input_lines_cases(2) by blast
  then show "\<exists>education. extract_education input = Inr education"
    by (simp add: extract_education_def split: prod.split)
next
  fix lines
  assume "input_lines input = Inr lines
      \<and> list_all (\<lambda>line. \<not> any_in section_keywords (str_lower line)) lines"
  then show "extract_education input = Inr []"
    by (simp add: extract_education_def edu_loop_outside flush_empty_edu)
qed

theorem extract_education_raises_witness:
  "extract_education NoneInput = Inl ValueError
   \<and> extract_education (ListInput [''Education'', ''Bachelor of Arts'']) = Inl ValueError
   \<and> extract_education (StrInput plain_text) = Inr []"
proof -
  have n: "\<not> is_doc NoneInput \<and> \<not> is_str NoneInput"
    by (simp add: is_doc_def is_str_def)
  have l: "\<not> is_doc (ListInput [''Education'', ''Bachelor of Arts''])
      \<and> \<not> is_str (ListInput [''Education'', ''Bachelor of Arts''])"
    by (simp add: is_doc_def is_str_def)
  have p: "input_lines (StrInput plain_text) = Inr [''Jane Doe'', ''Engineer at Acme'', ''Skills: Python'']"
    by code_simp
  have q: "list_all (\<lambda>line. \<not> any_in section_keywords (str_lower line))
      [''Jane Doe'', ''Engineer at Acme'', ''Skills: Python'']"
    by code_simp
  from extract_education_raises [of NoneInput] n
  have a: "extract_education NoneInput = Inl ValueError" by blast
  from extract_education_raises [of "ListInput [''Education'', ''Bachelor of Arts'']"] l
  have b: "extract_education (ListInput [''Education'', ''Bachelor of Arts'']) = Inl ValueError"
    by blast
  from extract_education_raises [of "StrInput plain_text"] p q
  have c: "extract_education (StrInput plain_text) = Inr []" by blast
  from a b c show ?thesis by blast
qed

text \<open>
  C1. On the text with the lines "Education", "Bachelor of Science", "in Computer Science",
  "MIT", "Cambridge, MA", "2015-2019", \<^const>\<open>extract_education\<close> returns one entry with
  the degree "Bachelor of Science in Computer Science" and the dates "2015-2019". The line
  "in Computer Science" is joined to the degree by the lookahead and is then read again as a
  line of its own, so it becomes the institution, "MIT" becomes the location and
  "Cambridge, MA" goes to the additional information: the entry is not the one with
  institution "MIT" and location "Cambridge, MA".
\<close>

theorem education_field_order_evaluation:
  "extract_education (StrInput education_text) =
     Inr [\<lparr>degree = Some ''Bachelor of Science in Computer Science'',
           institution = Some ''in Computer Science'',
           location = Some ''MIT'',
           edu_dates = Some ''2015-2019'',
           additional_info = Some [''Cambridge, MA'']\<rparr>]
   \<and> extract_education (StrInput education_text) \<noteq>
     Inr [\<lparr>degree = Some ''Bachelor of Science in Computer Science'',
           institution = Some ''MIT'',
           location = Some ''Cambridge, MA'',
           edu_dates = Some ''2015-2019'',
           additional_info = None\<rparr>]"
  by code_simp

text \<open>
  C3, as stated, fails: an accumulator that holds only \<^verbatim>\<open>dates\<close> and no \<^verbatim>\<open>degree\<close> is
  flushed as an entry of its own by the degree line that follows.
\<close>

theorem degree_flush_counterexample:
  "degree dates_only_edu = None
   \<and> edu_loop [''Bachelor of Arts''] (True, dates_only_edu, []) =
       (True, empty_edu\<lparr>degree := Some ''Bachelor of Arts''\<rparr>, [dates_only_edu])
   \<and> extract_education (StrInput dates_first_text) =
       Inr [\<lparr>degree = None, institution = None, location = None,
              edu_dates = Some ''2015-2019'', additional_info = None\<rparr>,
            \<lparr>degree = Some ''Bachelor of Arts'', institution = None, location = None,
              edu_dates = None, additional_info = None\<rparr>]"
  by code_simp

lemma edu_empty: "\<not> edu_nonempty (e :: edu) \<Longrightarrow> e = empty_edu"
  by (cases e) (simp add: edu_nonempty_def empty_edu_def)

text \<open>
  C3, amended. When a line inside the section matches the degree pattern (and contains
  neither a section keyword nor an end keyword), the current accumulator is flushed as a
  completed entry exactly when it is non-empty, whatever fields it holds; the scan goes on
  with a fresh accumulator whose only field is the degree, the line joined with the line
  that follows when there is one.
\<close>

theorem degree_line_flush:
  assumes "\<not> any_in section_keywords (str_lower line)"
    and "\<not> any_in end_keywords (str_lower line)"
    and "degree_match (str_lower line)"
  shows "edu_loop (line # rest) (True, current_edu, education) =
     edu_loop rest
       (True,
        empty_edu\<lparr>degree := Some (case rest of [] \<Rightarrow> line | following # _ \<Rightarrow> line @ '' '' @ following)\<rparr>,
        if edu_nonempty current_edu then education @ [current_edu] else education)"
proof (cases "edu_nonempty current_edu")
  case True
  with assms show ?thesis
    by (cases rest) (simp_all add: edu_step_def flush_edu_def)
next
  case False
  then have "current_edu = empty_edu"
    by (rule edu_empty)
  with assms False show ?thesis
    by (cases rest) (simp_all add: edu_step_def flush_edu_def)
qed

theorem degree_line_flush_witness:
  "\<not> any_in section_keywords (str_lower ''Bachelor of Arts'')
   \<and> \<not> any_in end_keywords (str_lower ''Bachelor of Arts'')
   \<and> degree_match (str_lower ''Bachelor of Arts'')
   \<and> edu_loop [''Bachelor of Arts'', ''MIT''] (True, dates_only_edu, []) =
       edu_loop [''MIT'']
         (True, empty_edu\<lparr>degree := Some ''Bachelor of Arts MIT''\<rparr>, [dates_only_edu])"
proof -
  have h1: "\<not> any_in section_keywords (str_lower ''Bachelor of Arts'')"
    by code_simp
  have h2: "\<not> any_in end_keywords (str_lower ''Bachelor of Arts'')"
    by code_simp
  have h3: "degree_match (str_lower ''Bachelor of Arts'')"
    by code_simp
  have n: "edu_nonempty dates_only_edu"
    by (simp add: edu_nonempty_def dates_only_edu_def)
  have c: "(case [''MIT''] of [] \<Rightarrow> ''Bachelor of Arts'' | following # _ \<Rightarrow> ''Bachelor of Arts'' @ '' '' @ following)
      = ''Bachelor of Arts MIT''"
    by simp
  have "edu_loop [''Bachelor of Arts'', ''MIT''] (True, dates_only_edu, []) =
       edu_loop [''MIT'']
         (True, empty_edu\<lparr>degree := Some ''Bachelor of Arts MIT''\<rparr>, [dates_only_edu])"
    using degree_line_flush [OF h1 h2 h3, of "[''MIT'']" dates_only_edu "[]"]
    by (simp only: n c if_True append_Nil)
  with h1 h2 h3 show ?thesis by blast
qed

section \<open>Properties of extract\_awards\_and\_certifications\<close>

text \<open>The exit test is made on the lowercased line, whose first character is never uppercase.\<close>

lemma not_upper_lower_char: "\<not> is_upper_char (lower_char c)"
  by (simp add: lower_char_def is_upper_char_def)

lemma exits_section_lower: "\<not> exits_section (str_lower s)"
  by (cases s) (simp_all add: exits_section_def str_lower_def not_upper_lower_char)

text \<open>
  C2. On the text with the lines "Awards", "Best Paper (2019)", "Skills:", "Python",
  \<^const>\<open>extract_awards_and_certifications\<close> keeps the line "Skills:" and the line after it:
  the non-empty line that starts with an uppercase letter and ends with a colon does not
  leave the section, because on no line does the exit test of the code succeed.
\<close>

theorem awards_section_exit_evaluation:
  "extract_awards_and_certifications awards_text = [''Best Paper'', ''Skills:'', ''Python'']
   \<and> \<not> exits_section (str_lower (str_strip line))"
proof
  show "extract_awards_and_certifications awards_text = [''Best Paper'', ''Skills:'', ''Python'']"
    by code_simp
  show "\<not> exits_section (str_lower (str_strip line))"
    by (rule exits_section_lower)
qed

section \<open>Properties of extract\_work\_experience\<close>

text \<open>
  C4, as stated, fails: a sentence starts after the end of the triggering entity, yet the
  emitted entry has an empty \<^verbatim>\<open>job_title\<close>, because the first such sentence is blank and
  its trimmed text is the empty string.
\<close>

theorem work_experience_counterexample:
  "extract_work_experience blank_sentence_doc =
     [\<lparr>company = Some ''Acme Corp'', dates = Some ''2019'', job_title = Some []\<rparr>]
   \<and> sent_start (sents blank_sentence_doc ! 1) > ent_end (ents blank_sentence_doc ! 1)"
  by code_simp

text \<open>The inner loop finds the first sentence that starts after the entity's end.\<close>

lemma job_title_after_find:
  "job_title_after ss ent =
     map_option (\<lambda>s. str_strip (sent_text s)) (find (\<lambda>s. sent_start s > ent_end ent) ss)"
  by (induction ss) simp_all

text \<open>
  The loop over a list of entities that is cut in two: the entries appended so far stay
  where they are, and the second part starts from the accumulator the first part leaves.
\<close>

lemma work_loop_acc:
  "work_loop ss es cur exp = exp @ work_loop ss es cur []"
proof (induction es arbitrary: cur exp)
  case Nil
  show ?case by simp
next
  case (Cons e es)
  show ?case
  proof (cases "job_len (fill_job e cur) = 2")
    case True
    then show ?thesis
      using Cons.IH [of empty_job "exp @ [case job_title_after ss e of None \<Rightarrow> fill_job e cur
            | Some t \<Rightarrow> (fill_job e cur)\<lparr>job_title := Some t\<rparr>]"]
        Cons.IH [of empty_job "[case job_title_after ss e of None \<Rightarrow> fill_job e cur
            | Some t \<Rightarrow> (fill_job e cur)\<lparr>job_title := Some t\<rparr>]"]
      by (simp add: Let_def)
  next
    case False
    then show ?thesis
      using Cons.IH [of "fill_job e cur" exp] by (simp add: Let_def)
  qed
qed

lemma work_loop_append:
  "work_loop ss (xs @ ys) cur exp = work_loop ss ys (job_after xs cur) (work_loop ss xs cur exp)"
  by (induction xs arbitrary: cur exp) (simp_all add: Let_def)

lemma job_after_append:
  "job_after (xs @ ys) cur = job_after ys (job_after xs cur)"
  by (induction xs arbitrary: cur) (simp_all add: Let_def)

lemma work_loop_snoc:
  "work_loop ss (xs @ [x]) cur exp =
     (if job_len (fill_job x (job_after xs cur)) = 2
      then work_loop ss xs cur exp @
        [case job_title_after ss x of
           None \<Rightarrow> fill_job x (job_after xs cur)
         | Some t \<Rightarrow> (fill_job x (job_after xs cur))\<lparr>job_title := Some t\<rparr>]
      else work_loop ss xs cur exp)"
  by (simp add: work_loop_append Let_def)

lemma job_after_snoc:
  "job_after (xs @ [x]) cur =
     (if job_len (fill_job x (job_after xs cur)) = 2 then empty_job
      else fill_job x (job_after xs cur))"
  by (simp add: job_after_append Let_def)

lemma fill_job_title: "job_title (fill_job ent cur) = job_title cur"
  by (simp add: fill_job_def)

lemma fill_job_company:
  "company (fill_job ent cur) = company cur
   \<or> (label ent = ''ORG'' \<and> company (fill_job ent cur) = Some (ent_text ent)
       \<and> dates (fill_job ent cur) = dates cur)"
  by (simp add: fill_job_def)

lemma fill_job_dates:
  "dates (fill_job ent cur) = dates cur
   \<or> (label ent = ''DATE'' \<and> dates (fill_job ent cur) = Some (ent_text ent)
       \<and> company (fill_job ent cur) = company cur)"
  by (simp add: fill_job_def)

lemma fill_job_trigger:
  assumes "job_title cur = None" and "job_len cur < 2" and "job_len (fill_job ent cur) = 2"
  shows "label ent = ''ORG'' \<and> company (fill_job ent cur) = Some (ent_text ent)
     \<or> label ent = ''DATE'' \<and> dates (fill_job ent cur) = Some (ent_text ent)"
  using assms by (auto simp: fill_job_def job_len_def split: if_splits)

lemma job_len_two:
  "job_title j = None \<Longrightarrow> job_len j = 2 \<longleftrightarrow> company j \<noteq> None \<and> dates j \<noteq> None"
  by (simp add: job_len_def)

lemma emitted_fields:
  assumes "job_title filled = None"
  shows "company (case t of None \<Rightarrow> filled | Some x \<Rightarrow> filled\<lparr>job_title := Some x\<rparr>) = company filled"
    and "dates (case t of None \<Rightarrow> filled | Some x \<Rightarrow> filled\<lparr>job_title := Some x\<rparr>) = dates filled"
    and "job_title (case t of None \<Rightarrow> filled | Some x \<Rightarrow> filled\<lparr>job_title := Some x\<rparr>) = t"
  using assms by (cases t; simp)+

text \<open>What the accumulator holds after the loop has run over the entities \<open>es\<close>.\<close>

lemma job_after_invariant:
  "job_title (job_after es empty_job) = None
   \<and> job_len (job_after es empty_job) < 2
   \<and> (company (job_after es empty_job) = None
       \<or> (\<exists>org\<in>set es. label org = ''ORG'' \<and> company (job_after es empty_job) = Some (ent_text org)))
   \<and> (dates (job_after es empty_job) = None
       \<or> (\<exists>date\<in>set es. label date = ''DATE'' \<and> dates (job_after es empty_job) = Some (ent_text date)))"
  (is "?Inv es")
proof (induction es rule: rev_induct)
  case Nil
  show ?case by (simp add: empty_job_def job_len_def)
next
  case (snoc x xs)
  let ?cur = "job_after xs empty_job"
  let ?f = "fill_job x ?cur"
  show ?case
  proof (cases "job_len ?f = 2")
    case True
    then show ?thesis
      by (simp add: job_after_snoc empty_job_def job_len_def)
  next
    case False
    have t: "job_title ?f = None"
      using snoc.IH by (simp add: fill_job_title)
    then have "job_len ?f \<le> 2"
      by (simp add: job_len_def)
    with False have l: "job_len ?f < 2" by simp
    have c: "company ?f = None
       \<or> (\<exists>org\<in>set (xs @ [x]). label org = ''ORG'' \<and> company ?f = Some (ent_text org))"
      using snoc.IH fill_job_company [of x ?cur] by auto
    have d: "dates ?f = None
       \<or> (\<exists>date\<in>set (xs @ [x]). label date = ''DATE'' \<and> dates ?f = Some (ent_text date))"
      using snoc.IH fill_job_dates [of x ?cur] by auto
    from False t l c d show ?thesis
      by (simp only: job_after_snoc if_False)
  qed
qed


text \<open>The entry appended at an entity that completes the accumulator.\<close>

lemma trigger_entry:
  assumes l: "job_len (fill_job x (job_after xs empty_job)) = 2"
    and j_def: "j = (case job_title_after ss x of
           None \<Rightarrow> fill_job x (job_after xs empty_job)
         | Some t \<Rightarrow> (fill_job x (job_after xs empty_job))\<lparr>job_title := Some t\<rparr>)"
  shows "(\<exists>org\<in>set (xs @ [x]). label org = ''ORG'' \<and> company j = Some (ent_text org))
     \<and> (\<exists>date\<in>set (xs @ [x]). label date = ''DATE'' \<and> dates j = Some (ent_text date))
     \<and> (label x = ''ORG'' \<and> company j = Some (ent_text x)
         \<or> label x = ''DATE'' \<and> dates j = Some (ent_text x))
     \<and> job_title j = map_option (\<lambda>s. str_strip (sent_text s))
           (find (\<lambda>s. sent_start s > ent_end x) ss)
     \<and> (job_title j = None) = (\<not> list_ex (\<lambda>s. sent_start s > ent_end x) ss)"
proof -
  let ?cur = "job_after xs empty_job"
  let ?f = "fill_job x ?cur"
  note inv = job_after_invariant [of xs]
  have t: "job_title ?f = None"
    using inv by (simp add: fill_job_title)
  have both: "company ?f \<noteq> None" "dates ?f \<noteq> None"
    using l t by (simp_all add: job_len_two)
  have c: "\<exists>org\<in>set (xs @ [x]). label org = ''ORG'' \<and> company ?f = Some (ent_text org)"
    using inv both(1) fill_job_company [of x ?cur] by auto
  have d: "\<exists>date\<in>set (xs @ [x]). label date = ''DATE'' \<and> dates ?f = Some (ent_text date)"
    using inv both(2) fill_job_dates [of x ?cur] by auto
  have trig: "label x = ''ORG'' \<and> company ?f = Some (ent_text x)
       \<or> label x = ''DATE'' \<and> dates ?f = Some (ent_text x)"
    using inv l by (intro fill_job_trigger) simp_all
  have jt: "job_title j = map_option (\<lambda>s. str_strip (sent_text s))
        (find (\<lambda>s. sent_start s > ent_end x) ss)"
    unfolding j_def by (simp only: emitted_fields(3) [OF t] job_title_after_find)
  have none: "(job_title j = None) = (\<not> list_ex (\<lambda>s. sent_start s > ent_end x) ss)"
    unfolding jt by (auto simp add: find_None_iff list_ex_iff)
  have cj: "company j = company ?f" and dj: "dates j = dates ?f"
    unfolding j_def by (simp_all only: emitted_fields(1,2) [OF t])
  show ?thesis
    unfolding cj dj using c d trig jt none by (intro conjI)
qed

text \<open>Every entry of the result is appended at some entity.\<close>

lemma trigger_exists:
  "k < length (work_loop ss es empty_job []) \<Longrightarrow>
     \<exists>pre trigger post. es = pre @ trigger # post
       \<and> length (work_loop ss pre empty_job []) = k
       \<and> length (work_loop ss (pre @ [trigger]) empty_job []) = Suc k"
proof (induction es rule: rev_induct)
  case Nil
  then show ?case by simp
next
  case (snoc x xs)
  show ?case
  proof (cases "k < length (work_loop ss xs empty_job [])")
    case True
    from snoc.IH [OF this] obtain pre trigger post where
      "xs = pre @ trigger # post" "length (work_loop ss pre empty_job []) = k"
      "length (work_loop ss (pre @ [trigger]) empty_job []) = Suc k"
      by blast
    then have "xs @ [x] = pre @ trigger # (post @ [x])
       \<and> length (work_loop ss pre empty_job []) = k
       \<and> length (work_loop ss (pre @ [trigger]) empty_job []) = Suc k"
      by simp
    then show ?thesis by blast
  next
    case False
    with snoc.prems have "length (work_loop ss xs empty_job []) = k
       \<and> length (work_loop ss (xs @ [x]) empty_job []) = Suc k"
      by (simp add: work_loop_snoc split: if_splits)
    then have "xs @ [x] = xs @ x # []
       \<and> length (work_loop ss xs empty_job []) = k
       \<and> length (work_loop ss (xs @ [x]) empty_job []) = Suc k"
      by simp
    then show ?thesis by blast
  qed
qed

text \<open>An entry appended at an entity keeps its place in the result.\<close>

lemma trigger_nth:
  assumes "es = pre @ trigger # post"
    and "length (work_loop ss (pre @ [trigger]) empty_job [])
      = Suc (length (work_loop ss pre empty_job []))"
  shows "job_len (fill_job trigger (job_after pre empty_job)) = 2"
    and "length (work_loop ss pre empty_job []) < length (work_loop ss es empty_job [])"
    and "work_loop ss es empty_job [] ! length (work_loop ss pre empty_job []) =
      (case job_title_after ss trigger of
         None \<Rightarrow> fill_job trigger (job_after pre empty_job)
       | Some t \<Rightarrow> (fill_job trigger (job_after pre empty_job))\<lparr>job_title := Some t\<rparr>)"
proof -
  show l: "job_len (fill_job trigger (job_after pre empty_job)) = 2"
    using assms(2) by (simp add: work_loop_snoc split: if_splits)
  let ?j = "case job_title_after ss trigger of
         None \<Rightarrow> fill_job trigger (job_after pre empty_job)
       | Some t \<Rightarrow> (fill_job trigger (job_after pre empty_job))\<lparr>job_title := Some t\<rparr>"
  have p: "work_loop ss (pre @ [trigger]) empty_job [] = work_loop ss pre empty_job [] @ [?j]"
    using l by (simp add: work_loop_snoc)
  have "es = (pre @ [trigger]) @ post"
    using assms(1) by simp
  then have "work_loop ss es empty_job [] =
      work_loop ss post (job_after (pre @ [trigger]) empty_job) (work_loop ss (pre @ [trigger]) empty_job [])"
    by (simp only: work_loop_append)
  also have "\<dots> = (work_loop ss pre empty_job [] @ [?j])
      @ work_loop ss post (job_after (pre @ [trigger]) empty_job) []"
    unfolding p by (rule work_loop_acc)
  finally have r: "work_loop ss es empty_job [] =
      work_loop ss pre empty_job [] @ ?j # work_loop ss post (job_after (pre @ [trigger]) empty_job) []"
    by simp
  show "length (work_loop ss pre empty_job []) < length (work_loop ss es empty_job [])"
    unfolding r by simp
  show "work_loop ss es empty_job [] ! length (work_loop ss pre empty_job []) = ?j"
    unfolding r by (rule nth_append_length)
qed


text \<open>
  C4, amended. The triggering entity of the entry number \<open>k\<close> is the entity at which the
  number of appended entries goes from \<open>k\<close> to \<open>k + 1\<close>: the loop over the entities
  before it has appended \<open>k\<close> entries, the loop up to and including it \<open>k + 1\<close>. For
  every annotated document, every entry of the result of \<^const>\<open>extract_work_experience\<close>
  has a triggering entity, and the entry appended at a triggering entity is in the result
  at its place, with \<^verbatim>\<open>company\<close> the text of an ORG entity and \<^verbatim>\<open>dates\<close> the text of a
  DATE entity, both among the entities up to the triggering one, which is itself one of
  the two, and with \<^verbatim>\<open>job_title\<close> the trimmed text of the first sentence that starts
  strictly after the end of the triggering entity. The title is set exactly when such a
  sentence exists; the entry is appended without it otherwise. The three strings are what
  those texts are: non-empty when the entity texts and the trimmed sentence are.
\<close>

theorem work_experience_entries:
  "(\<forall>k<length (extract_work_experience d).
      \<exists>pre trigger post. ents d = pre @ trigger # post
        \<and> length (work_loop (sents d) pre empty_job []) = k
        \<and> length (work_loop (sents d) (pre @ [trigger]) empty_job []) = Suc k)
   \<and> (\<forall>pre trigger post k.
        ents d = pre @ trigger # post
        \<and> length (work_loop (sents d) pre empty_job []) = k
        \<and> length (work_loop (sents d) (pre @ [trigger]) empty_job []) = Suc k
      \<longrightarrow> k < length (extract_work_experience d)
        \<and> (\<exists>org\<in>set (pre @ [trigger]). label org = ''ORG''
              \<and> company (extract_work_experience d ! k) = Some (ent_text org))
        \<and> (\<exists>date\<in>set (pre @ [trigger]). label date = ''DATE''
              \<and> dates (extract_work_experience d ! k) = Some (ent_text date))
        \<and> (label trigger = ''ORG''
              \<and> company (extract_work_experience d ! k) = Some (ent_text trigger)
            \<or> label trigger = ''DATE''
              \<and> dates (extract_work_experience d ! k) = Some (ent_text trigger))
        \<and> job_title (extract_work_experience d ! k)
            = map_option (\<lambda>s. str_strip (sent_text s))
                (find (\<lambda>s. sent_start s > ent_end trigger) (sents d))
        \<and> (job_title (extract_work_experience d ! k) = None)
            = (\<not> list_ex (\<lambda>s. sent_start s > ent_end trigger) (sents d)))"
proof (rule conjI)
  show "\<forall>k<length (extract_work_experience d).
      \<exists>pre trigger post. ents d = pre @ trigger # post
        \<and> length (work_loop (sents d) pre empty_job []) = k
        \<and> length (work_loop (sents d) (pre @ [trigger]) empty_job []) = Suc k"
    unfolding extract_work_experience_def by (intro allI impI) (rule trigger_exists)
next
  show "\<forall>pre trigger post k.
        ents d = pre @ trigger # post
        \<and> length (work_loop (sents d) pre empty_job []) = k
        \<and> length (work_loop (sents d) (pre @ [trigger]) empty_job []) = Suc k
      \<longrightarrow> k < length (extract_work_experience d)
        \<and> (\<exists>org\<in>set (pre @ [trigger]). label org = ''ORG''
              \<and> company (extract_work_experience d ! k) = Some (ent_text org))
        \<and> (\<exists>date\<in>set (pre @ [trigger]). label date = ''DATE''
              \<and> dates (extract_work_experience d ! k) = Some (ent_text date))
        \<and> (label trigger = ''ORG''
              \<and> company (extract_work_experience d ! k) = Some (ent_text trigger)
            \<or> label trigger = ''DATE''
              \<and> dates (extract_work_experience d ! k) = Some (ent_text trigger))
        \<and> job_title (extract_work_experience d ! k)
            = map_option (\<lambda>s. str_strip (sent_text s))
                (find (\<lambda>s. sent_start s > ent_end trigger) (sents d))
        \<and> (job_title (extract_work_experience d ! k) = None)
            = (\<not> list_ex (\<lambda>s. sent_start s > ent_end trigger) (sents d))"
  proof (rule allI, rule allI, rule allI, rule allI, rule impI)
    fix pre trigger post k
    assume a: "ents d = pre @ trigger # post
          \<and> length (work_loop (sents d) pre empty_job []) = k
          \<and> length (work_loop (sents d) (pre @ [trigger]) empty_job []) = Suc k"
    then have e: "ents d = pre @ trigger # post"
      and k: "length (work_loop (sents d) pre empty_job []) = k"
      and s: "length (work_loop (sents d) (pre @ [trigger]) empty_job [])
        = Suc (length (work_loop (sents d) pre empty_job []))"
      by simp_all
    note n = trigger_nth [OF e s]
    have j: "extract_work_experience d ! k =
        (case job_title_after (sents d) trigger of
           None \<Rightarrow> fill_job trigger (job_after pre empty_job)
         | Some t \<Rightarrow> (fill_job trigger (job_after pre empty_job))\<lparr>job_title := Some t\<rparr>)"
      using n(3) unfolding extract_work_experience_def k .
    have lt: "k < length (extract_work_experience d)"
      using n(2) unfolding extract_work_experience_def k .
    from lt trigger_entry [OF n(1) j]
    show "k < length (extract_work_experience d)
        \<and> (\<exists>org\<in>set (pre @ [trigger]). label org = ''ORG''
              \<and> company (extract_work_experience d ! k) = Some (ent_text org))
        \<and> (\<exists>date\<in>set (pre @ [trigger]). label date = ''DATE''
              \<and> dates (extract_work_experience d ! k) = Some (ent_text date))
        \<and> (label trigger = ''ORG''
              \<and> company (extract_work_experience d ! k) = Some (ent_text trigger)
            \<or> label trigger = ''DATE''
              \<and> dates (extract_work_experience d ! k) = Some (ent_text trigger))
        \<and> job_title (extract_work_experience d ! k)
            = map_option (\<lambda>s. str_strip (sent_text s))
                (find (\<lambda>s. sent_start s > ent_end trigger) (sents d))
        \<and> (job_title (extract_work_experience d ! k) = None)
            = (\<not> list_ex (\<lambda>s. sent_start s > ent_end trigger) (sents d))"
      by (rule conjI)
  qed
qed

theorem work_experience_entries_witness:
  "ents work_doc = [acme_ent] @ y2019_ent # [initech_ent, y2021_ent]
   \<and> length (work_loop (sents work_doc) [acme_ent] empty_job []) = 0
   \<and> length (work_loop (sents work_doc) ([acme_ent] @ [y2019_ent]) empty_job []) = Suc 0
   \<and> 0 < length (extract_work_experience work_doc)
   \<and> job_title (extract_work_experience work_doc ! 0) = Some ''Senior Engineer''
   \<and> ents work_doc = [acme_ent, y2019_ent, initech_ent] @ y2021_ent # []
   \<and> length (work_loop (sents work_doc) [acme_ent, y2019_ent, initech_ent] empty_job []) = 1
   \<and> length (work_loop (sents work_doc) ([acme_ent, y2019_ent, initech_ent] @ [y2021_ent])
         empty_job []) = Suc 1
   \<and> job_title (extract_work_experience work_doc ! 1) = None
   \<and> extract_work_experience work_doc =
       [\<lparr>company = Some ''Acme Corp'', dates = Some ''2019'', job_title = Some ''Senior Engineer''\<rparr>,
        \<lparr>company = Some ''Initech'', dates = Some ''2021'', job_title = None\<rparr>]"
proof -
  have a: "ents work_doc = [acme_ent] @ y2019_ent # [initech_ent, y2021_ent]
     \<and> length (work_loop (sents work_doc) [acme_ent] empty_job []) = 0
     \<and> length (work_loop (sents work_doc) ([acme_ent] @ [y2019_ent]) empty_job []) = Suc 0"
    by code_simp
  have b: "ents work_doc = [acme_ent, y2019_ent, initech_ent] @ y2021_ent # []
     \<and> length (work_loop (sents work_doc) [acme_ent, y2019_ent, initech_ent] empty_job []) = 1
     \<and> length (work_loop (sents work_doc) ([acme_ent, y2019_ent, initech_ent] @ [y2021_ent])
           empty_job []) = Suc 1"
    by code_simp
  have f0: "map_option (\<lambda>s. str_strip (sent_text s))
      (find (\<lambda>s. sent_start s > ent_end y2019_ent) (sents work_doc)) = Some ''Senior Engineer''"
    by code_simp
  have f1: "\<not> list_ex (\<lambda>s. sent_start s > ent_end y2021_ent) (sents work_doc)"
    by code_simp
  have r: "extract_work_experience work_doc =
       [\<lparr>company = Some ''Acme Corp'', dates = Some ''2019'', job_title = Some ''Senior Engineer''\<rparr>,
        \<lparr>company = Some ''Initech'', dates = Some ''2021'', job_title = None\<rparr>]"
    by code_simp
  note t = work_experience_entries [of work_doc, THEN conjunct2, THEN spec, THEN spec,
      THEN spec, THEN spec, THEN mp]
  from t [OF a] f0 have t0: "0 < length (extract_work_experience work_doc)
      \<and> job_title (extract_work_experience work_doc ! 0) = Some ''Senior Engineer''"
    by (simp only:) 
  from t [OF b] f1 have t1: "job_title (extract_work_experience work_doc ! 1) = None"
    by blast
  from a b t0 t1 r show ?thesis
    by blast
qed

section \<open>Properties of extract\_skills\<close>

text \<open>The case mapping on ASCII code points.\<close>

lemma cp_lower_ascii:
  "0 \<le> c \<Longrightarrow> c < 128 \<Longrightarrow> cp_lower c = (if 65 \<le> c \<and> c \<le> 90 then c + 32 else c)"
  by (simp add: cp_lower_def)

lemma cp_title_lower_ascii:
  "0 \<le> c \<Longrightarrow> c < 128 \<Longrightarrow> cp_title (cp_lower c) = cp_title c"
  by (simp add: cp_lower_ascii) (simp add: cp_title_def)

lemma cp_lower_title_ascii:
  "0 \<le> c \<Longrightarrow> c < 128 \<Longrightarrow> cp_lower (cp_title c) = cp_lower c"
  by (simp add: cp_title_def cp_lower_def)

lemma cp_lower_lower_ascii:
  "0 \<le> c \<Longrightarrow> c < 128 \<Longrightarrow> cp_lower (cp_lower c) = cp_lower c"
  by (simp add: cp_lower_def)

lemma ustr_lower_capitalize_ascii:
  "is_ascii s \<Longrightarrow> ustr_lower (ustr_capitalize s) = ustr_lower s"
  by (cases s)
     (simp_all add: is_ascii_def ustr_lower_def ustr_capitalize_def list_all_iff
        cp_lower_title_ascii cp_lower_lower_ascii)

lemma capitalize_eq_of_lower_eq:
  assumes "is_ascii s" and "is_ascii t" and "ustr_lower s = ustr_lower t"
  shows "ustr_capitalize s = ustr_capitalize t"
proof (cases s)
  case Nil
  with assms(3) show ?thesis by (simp add: ustr_lower_def)
next
  case s: (Cons c cs)
  with assms(3) obtain e es where t: "t = e # es"
    by (cases t) (simp_all add: ustr_lower_def)
  from assms(3) have h: "cp_lower c = cp_lower e" and tl: "map cp_lower cs = map cp_lower es"
    by (simp_all add: s t ustr_lower_def)
  have c: "0 \<le> c" "c < 128" and e: "0 \<le> e" "e < 128"
    using assms(1,2) by (simp_all add: s t is_ascii_def)
  have "cp_title c = cp_title (cp_lower c)"
    using c by (simp only: cp_title_lower_ascii)
  also have "\<dots> = cp_title (cp_lower e)"
    by (simp only: h)
  also have "\<dots> = cp_title e"
    using e by (simp only: cp_title_lower_ascii)
  finally show ?thesis
    using tl by (simp add: s t ustr_capitalize_def)
qed

lemma filter_at_most_one:
  assumes "distinct xs" and "\<And>a b. a \<in> set xs \<Longrightarrow> b \<in> set xs \<Longrightarrow> P a \<Longrightarrow> P b \<Longrightarrow> a = b"
  shows "length (filter P xs) \<le> 1"
  using assms
proof (induction xs)
  case Nil
  then show ?case by simp
next
  case (Cons x xs)
  have ih: "length (filter P xs) \<le> 1"
    using Cons by auto
  show ?case
  proof (cases "P x")
    case False
    with ih show ?thesis by simp
  next
    case True
    have "filter P xs = []"
    proof (rule ccontr)
      assume "filter P xs \<noteq> []"
      then obtain y where y: "y \<in> set xs" "P y"
        by (auto simp: filter_empty_conv)
      with Cons.prems(2) [of x y] True have "x = y" by simp
      with y Cons.prems(1) show False by simp
    qed
    with True show ?thesis by simp
  qed
qed

text \<open>The result holds the capitalized forms of the vocabulary terms that match.\<close>

lemma extract_skills_elems:
  "x \<in> set (extract_skills d v) \<longleftrightarrow>
     (\<exists>skill\<in>set v. skill_matches d skill \<and> x = ustr_capitalize skill)"
  by (auto simp: extract_skills_def)

text \<open>
  C7, as stated, fails: the Angstrom sign U+212B and the letter U+00C5 have the same
  lowercase form and are both their own title-case form, so a vocabulary with the term
  written with the one and with the other gives two entries that are equal when case is
  ignored.
\<close>

theorem skills_case_duplicates_counterexample:
  "0x212B # code_points ''ngstrom'' \<in> set (extract_skills angstrom_doc angstrom_vocab)
   \<and> 0xC5 # code_points ''ngstrom'' \<in> set (extract_skills angstrom_doc angstrom_vocab)
   \<and> ustr_lower (0x212B # code_points ''ngstrom'') = ustr_lower (0xC5 # code_points ''ngstrom'')
   \<and> 0x212B # code_points ''ngstrom'' \<noteq> 0xC5 # code_points ''ngstrom''"
  by code_simp

text \<open>
  C7, amended. For every document and every vocabulary, the result of
  \<^const>\<open>extract_skills\<close> has no two equal entries. When the vocabulary terms that match
  are ASCII, it has no two entries that are equal when case is ignored, and for any term
  at most one entry is a rendering of it (equal to it up to case), however many times and
  in whatever casing the vocabulary contains the term.
\<close>

theorem skills_no_case_duplicates:
  "distinct (extract_skills d skill_list)
   \<and> (list_all is_ascii (filter (skill_matches d) skill_list) \<longrightarrow>
        (\<forall>a\<in>set (extract_skills d skill_list). \<forall>b\<in>set (extract_skills d skill_list).
           ustr_lower a = ustr_lower b \<longrightarrow> a = b)
        \<and> length (filter (\<lambda>x. ustr_lower x = ustr_lower term) (extract_skills d skill_list)) \<le> 1)"
proof (rule conjI)
  show d: "distinct (extract_skills d skill_list)"
    by (simp add: extract_skills_def)
  show "list_all is_ascii (filter (skill_matches d) skill_list) \<longrightarrow>
        (\<forall>a\<in>set (extract_skills d skill_list). \<forall>b\<in>set (extract_skills d skill_list).
           ustr_lower a = ustr_lower b \<longrightarrow> a = b)
        \<and> length (filter (\<lambda>x. ustr_lower x = ustr_lower term) (extract_skills d skill_list)) \<le> 1"
  proof (rule impI)
    assume "list_all is_ascii (filter (skill_matches d) skill_list)"
    then have ascii: "\<forall>skill\<in>set skill_list. skill_matches d skill \<longrightarrow> is_ascii skill"
      by (simp add: list_all_iff)
    have u: "a = b" if "a \<in> set (extract_skills d skill_list)"
      "b \<in> set (extract_skills d skill_list)" "ustr_lower a = ustr_lower b" for a b
    proof -
      from that(1,2) obtain s t where st: "a = ustr_capitalize s" "b = ustr_capitalize t"
        and m: "s \<in> set skill_list" "skill_matches d s" "t \<in> set skill_list" "skill_matches d t"
        unfolding extract_skills_elems by blast
      from ascii m have a: "is_ascii s" "is_ascii t"
        by blast+
      from that(3) have "ustr_lower s = ustr_lower t"
        by (simp only: st ustr_lower_capitalize_ascii [OF a(1)] ustr_lower_capitalize_ascii [OF a(2)])
      with a show ?thesis
        unfolding st by (rule capitalize_eq_of_lower_eq)
    qed
    have "length (filter (\<lambda>x. ustr_lower x = ustr_lower term) (extract_skills d skill_list)) \<le> 1"
    proof (rule filter_at_most_one [OF d])
      fix a b
      assume "a \<in> set (extract_skills d skill_list)" "b \<in> set (extract_skills d skill_list)"
        "ustr_lower a = ustr_lower term" "ustr_lower b = ustr_lower term"
      then show "a = b" using u [of a b] by simp
    qed
    with u show "(\<forall>a\<in>set (extract_skills d skill_list). \<forall>b\<in>set (extract_skills d skill_list).
           ustr_lower a = ustr_lower b \<longrightarrow> a = b)
        \<and> length (filter (\<lambda>x. ustr_lower x = ustr_lower term) (extract_skills d skill_list)) \<le> 1"
      by blast
  qed
qed

lemma skills_example:
  "extract_skills skills_doc skills_vocab =
     map code_points [''Python'', ''Javascript'', ''Matlab'', ''Machine learning'']"
  by code_simp

theorem skills_no_case_duplicates_witness:
  "list_all is_ascii (filter (skill_matches skills_doc) skills_vocab)
   \<and> extract_skills skills_doc skills_vocab =
       map code_points [''Python'', ''Javascript'', ''Matlab'', ''Machine learning'']
   \<and> distinct (extract_skills skills_doc skills_vocab)
   \<and> length (filter (\<lambda>x. ustr_lower x = ustr_lower (code_points ''pYtHoN''))
         (extract_skills skills_doc skills_vocab)) \<le> 1"
proof -
  have h: "list_all is_ascii (filter (skill_matches skills_doc) skills_vocab)"
    by code_simp
  note t = skills_no_case_duplicates [of skills_doc skills_vocab "code_points ''pYtHoN''"]
  from t have d: "distinct (extract_skills skills_doc skills_vocab)"
    by (rule conjunct1)
  from t [THEN conjunct2, THEN mp, OF h, THEN conjunct2]
  have l: "length (filter (\<lambda>x. ustr_lower x = ustr_lower (code_points ''pYtHoN''))
         (extract_skills skills_doc skills_vocab)) \<le> 1" .
  from h d l skills_example show ?thesis
    by blast
qed







end
